theory Spec2Isabelle
  imports Main "HOL-Library.Sublist"
begin

section \<open>Python values\<close>

text \<open>
  A Python \<^verbatim>\<open>str\<close> is a sequence of Unicode code points, so it is modelled as a list of
  natural numbers. \<open>lit\<close> turns an ASCII literal into such a list; \<open>''\<newline>''\<close> is
  the line feed (code point 10).
\<close>

type_synonym str = "nat list"

abbreviation (input) lit :: "string \<Rightarrow> str" where
  "lit s \<equiv> map of_char s"

text \<open>
  \<^verbatim>\<open>str.isspace\<close> of CPython 3 for one code point: the characters that
  \<^verbatim>\<open>str.lstrip()\<close> removes when it is called without an argument.
\<close>

definition py_isspace :: "nat \<Rightarrow> bool" where
  "py_isspace c =
     ((9 \<le> c \<and> c \<le> 13) \<or> (28 \<le> c \<and> c \<le> 32) \<or> c = 133 \<or> c = 160 \<or> c = 5760 \<or>
      (8192 \<le> c \<and> c \<le> 8202) \<or> c = 8232 \<or> c = 8233 \<or> c = 8239 \<or> c = 8287 \<or>
      c = 12288)"

definition lstrip :: "str \<Rightarrow> str" where
  "lstrip s = dropWhile py_isspace s"

text \<open>
  The exceptions the programs distinguish. \<open>KeyError k\<close> is a failed subscript
  \<^verbatim>\<open>d[k]\<close>; \<open>ConnectionClosedOK\<close> is the websocket's normal closure; \<open>Error m\<close> is any
  other exception, \<open>m\<close> being what \<^verbatim>\<open>str(e)\<close> gives.
\<close>

datatype exn = ConnectionClosedOK | KeyError str | Error str

fun exn_str :: "exn \<Rightarrow> str" where
  "exn_str (KeyError k) = lit [CHR 0x27] @ k @ lit [CHR 0x27]"
| "exn_str (Error m) = m"
| "exn_str ConnectionClosedOK = []"

section \<open>Tokens and responses of the Soniox websocket\<close>

text \<open>
  A token is a JSON object; every key may be absent (\<open>None\<close>), which is also what
  \<^verbatim>\<open>token.get(key)\<close> returns.
\<close>

record token =
  tok_text :: "str option"
  tok_is_final :: "bool option"
  tok_speaker :: "str option"
  tok_language :: "str option"
  tok_translation_status :: "str option"

record response =
  res_error_code :: "str option"
  res_error_message :: "str option"
  res_tokens :: "token list"
  res_finished :: bool

text \<open>\<^verbatim>\<open>if token.get("text")\<close>: the key is present and the string is not empty.\<close>

definition has_text :: "token \<Rightarrow> bool" where
  "has_text token = (case tok_text token of None \<Rightarrow> False | Some t \<Rightarrow> t \<noteq> [])"

text \<open>\<^verbatim>\<open>if token.get("is_final")\<close>.\<close>

definition is_final :: "token \<Rightarrow> bool" where
  "is_final token = (tok_is_final token = Some True)"

section \<open>\<^verbatim>\<open>render_tokens\<close> of soniox\_realtime.py\<close>

text \<open>
  The loop state is \<open>(text_parts, current_speaker, current_language)\<close>. The two
  \<^verbatim>\<open>if\<close> blocks of the loop body are \<open>speaker_block\<close> and \<open>language_block\<close>; the second
  also returns the text, stripped on the left when a tag was written.
\<close>

type_synonym render_state = "str list \<times> str option \<times> str option"

definition speaker_block :: "render_state \<Rightarrow> str option \<Rightarrow> render_state" where
  "speaker_block st speaker =
     (case st of (text_parts, current_speaker, current_language) \<Rightarrow>
        (case speaker of
           None \<Rightarrow> st
         | Some sp \<Rightarrow>
             if speaker = current_speaker then st
             else
               ((if current_speaker = None then text_parts
                 else text_parts @ [lit ''\<newline>\<newline>''])
                  @ [lit ''Speaker '' @ sp @ lit '':''],
                speaker, None)))"

definition language_block :: "render_state \<Rightarrow> str option \<Rightarrow> bool \<Rightarrow> str \<Rightarrow> render_state \<times> str" where
  "language_block st language is_translation text =
     (case st of (text_parts, current_speaker, current_language) \<Rightarrow>
        (case language of
           None \<Rightarrow> (st, text)
         | Some lang \<Rightarrow>
             if language = current_language then (st, text)
             else
               ((text_parts @
                   [lit ''\<newline>'' @ (if is_translation then lit ''[Translation] '' else [])
                      @ lit ''['' @ lang @ lit ''] ''],
                 current_speaker, language),
                lstrip text)))"

definition render_body :: "render_state \<Rightarrow> token \<Rightarrow> exn + render_state" where
  "render_body st token =
     (case tok_text token of
        None \<Rightarrow> Inl (KeyError (lit ''text''))
      | Some text \<Rightarrow>
          (let speaker = tok_speaker token;
               language = tok_language token;
               is_translation = (tok_translation_status token = Some (lit ''translation''))
           in case language_block (speaker_block st speaker) language is_translation text of
                ((text_parts, current_speaker, current_language), text') \<Rightarrow>
                  Inr (text_parts @ [text'], current_speaker, current_language)))"

fun render_for :: "render_state \<Rightarrow> token list \<Rightarrow> exn + render_state" where
  "render_for st [] = Inr st"
| "render_for st (token # rest) =
     (case render_body st token of
        Inl e \<Rightarrow> Inl e
      | Inr st' \<Rightarrow> render_for st' rest)"

definition render_tokens :: "token list \<Rightarrow> token list \<Rightarrow> exn + str" where
  "render_tokens final_tokens non_final_tokens =
     (case render_for ([], None, None) (final_tokens @ non_final_tokens) of
        Inl e \<Rightarrow> Inl e
      | Inr (text_parts, current_speaker, current_language) \<Rightarrow>
          Inr (concat (text_parts @ [lit ''\<newline>===============================''])))"

section \<open>\<^verbatim>\<open>TranscriptionSession.render_tokens\<close> of soniox\_ui.py\<close>

text \<open>
  The method's loop, with the three local variables as accumulators; it returns the
  joined \<open>text_parts\<close>.
\<close>

fun session_render_for :: "str list \<Rightarrow> str option \<Rightarrow> str option \<Rightarrow> token list \<Rightarrow> exn + str list" where
  "session_render_for text_parts current_speaker current_language [] = Inr text_parts"
| "session_render_for text_parts current_speaker current_language (token # rest) =
     (case tok_text token of
        None \<Rightarrow> Inl (KeyError (lit ''text''))
      | Some text \<Rightarrow>
          (let speaker = tok_speaker token;
               language = tok_language token;
               is_translation = (tok_translation_status token = Some (lit ''translation''));
               new_speaker = (speaker \<noteq> None \<and> speaker \<noteq> current_speaker);
               text_parts1 =
                 (if new_speaker \<and> current_speaker \<noteq> None then text_parts @ [lit ''\<newline>\<newline>'']
                  else text_parts);
               current_speaker1 = (if new_speaker then speaker else current_speaker);
               current_language1 = (if new_speaker then None else current_language);
               text_parts2 =
                 (if new_speaker
                  then text_parts1 @ [lit ''Speaker '' @ the current_speaker1 @ lit '':'']
                  else text_parts1);
               new_language = (language \<noteq> None \<and> language \<noteq> current_language1);
               current_language2 = (if new_language then language else current_language1);
               prefix = (if is_translation then lit ''[Translation] '' else []);
               text_parts3 =
                 (if new_language
                  then text_parts2 @ [lit ''\<newline>'' @ prefix @ lit ''['' @ the current_language2 @ lit ''] '']
                  else text_parts2);
               text1 = (if new_language then lstrip text else text)
           in session_render_for (text_parts3 @ [text1]) current_speaker1 current_language2 rest))"

definition session_render_tokens :: "token list \<Rightarrow> token list \<Rightarrow> exn + str" where
  "session_render_tokens final_tokens non_final_tokens =
     (case session_render_for [] None None (final_tokens @ non_final_tokens) of
        Inl e \<Rightarrow> Inl e
      | Inr text_parts \<Rightarrow> Inr (concat text_parts))"

section \<open>Parsing the tokens of one response\<close>

text \<open>
  The inner \<^verbatim>\<open>for token in res.get("tokens", [])\<close> loop, which soniox\_ui.py
  (\<^verbatim>\<open>receive_messages\<close>) and soniox\_realtime.py (\<^verbatim>\<open>run_session\<close>) share word for
  word. \<open>parse_response\<close> is the loop together with the statement before it,
  \<^verbatim>\<open>non_final_tokens = []\<close>.
\<close>

fun parse_for :: "token list \<Rightarrow> token list \<Rightarrow> token list \<Rightarrow> token list \<times> token list" where
  "parse_for final_tokens non_final_tokens [] = (final_tokens, non_final_tokens)"
| "parse_for final_tokens non_final_tokens (token # rest) =
     (if has_text token then
        (if is_final token then parse_for (final_tokens @ [token]) non_final_tokens rest
         else parse_for final_tokens (non_final_tokens @ [token]) rest)
      else parse_for final_tokens non_final_tokens rest)"

definition parse_response :: "token list \<Rightarrow> response \<Rightarrow> token list \<times> token list" where
  "parse_response final_tokens res = parse_for final_tokens [] (res_tokens res)"

section \<open>\<^verbatim>\<open>TranscriptionSession\<close> of soniox\_ui.py\<close>

text \<open>
  The object's fields that the methods below read or write (\<^verbatim>\<open>api_key\<close>,
  \<^verbatim>\<open>audio_format\<close> and \<^verbatim>\<open>translation\<close> only feed \<^verbatim>\<open>get_config\<close>). \<open>calls\<close> is not
  a field of the class: it records, in order, the calls the methods make on the
  websocket, the stop event and the two threads, so that a statement can speak about
  them.
\<close>

datatype websocket = Websocket

datatype thread = Thread_stream_audio_from_mic | Thread_receive_messages

datatype call =
    Connect | Ws_send_config | Ws_close
  | Event_set | Event_clear
  | Thread_start thread | Thread_join thread

record session =
  ws :: "websocket option"
  stop_event :: bool
  audio_thread :: "thread option"
  receive_thread :: "thread option"
  final_tokens :: "token list"
  is_running :: bool
  current_transcript :: str
  calls :: "call list"

text \<open>\<^verbatim>\<open>__init__\<close>.\<close>

definition new_session :: session where
  "new_session =
     \<lparr>ws = None, stop_event = False, audio_thread = None, receive_thread = None,
      final_tokens = [], is_running = False, current_transcript = [], calls = []\<rparr>"

text \<open>
  \<^verbatim>\<open>start\<close>. What the network does is an input: \<^verbatim>\<open>connect\<close> raises, or the first
  \<^verbatim>\<open>ws.send\<close> raises, or both succeed. The returned strings begin with the code points
  U+2705 and U+274C; the transcript is set to a line beginning with U+1F3A4.
\<close>

datatype network = Connect_raises exn | Send_raises exn | Connected

definition start :: "session \<Rightarrow> network \<Rightarrow> str \<times> session" where
  "start s net =
     (if is_running s then (lit ''Session already running'', s)
      else
        (case net of
           Connect_raises e \<Rightarrow>
             (10060 # lit '' Failed to start: '' @ exn_str e,
              s\<lparr>is_running := False, calls := calls s @ [Connect]\<rparr>)
         | Send_raises e \<Rightarrow>
             (10060 # lit '' Failed to start: '' @ exn_str e,
              s\<lparr>ws := Some Websocket, is_running := False,
                calls := calls s @ [Connect, Ws_send_config]\<rparr>)
         | Connected \<Rightarrow>
             (9989 # lit '' Recording started'',
              s\<lparr>ws := Some Websocket, stop_event := False, final_tokens := [],
                current_transcript := 127908 # lit '' Listening... Start speaking!\<newline>\<newline>'',
                is_running := True,
                audio_thread := Some Thread_stream_audio_from_mic,
                receive_thread := Some Thread_receive_messages,
                calls := calls s @
                  [Connect, Ws_send_config, Event_clear,
                   Thread_start Thread_stream_audio_from_mic,
                   Thread_start Thread_receive_messages]\<rparr>)))"

text \<open>
  \<^verbatim>\<open>stop\<close>. The string returned after a shutdown begins with the code points U+23F9,
  U+FE0F. A \<^verbatim>\<open>join\<close> with a timeout returns whether or not the thread has ended.
\<close>

definition stop :: "session \<Rightarrow> str \<times> session" where
  "stop s =
     (if \<not> is_running s then (lit ''No active session'', s)
      else
        (let s1 = s\<lparr>stop_event := True, is_running := False, calls := calls s @ [Event_set]\<rparr>;
             s2 = (case audio_thread s1 of
                     None \<Rightarrow> s1
                   | Some t \<Rightarrow> s1\<lparr>calls := calls s1 @ [Thread_join t]\<rparr>);
             s3 = (case receive_thread s2 of
                     None \<Rightarrow> s2
                   | Some t \<Rightarrow> s2\<lparr>calls := calls s2 @ [Thread_join t]\<rparr>);
             s4 = (case ws s3 of
                     None \<Rightarrow> s3
                   | Some w \<Rightarrow> s3\<lparr>ws := None, calls := calls s3 @ [Ws_close]\<rparr>)
         in (9209 # 65039 # lit '' Recording stopped'', s4)))"


subsection \<open>\<^verbatim>\<open>receive_messages\<close>\<close>

text \<open>
  One iteration of the \<^verbatim>\<open>while\<close> loop after \<^verbatim>\<open>json.loads\<close> has returned \<open>res\<close>: it
  ends normally (\<open>Continue\<close>), at a \<^verbatim>\<open>break\<close>, or by raising. The failed subscript
  \<^verbatim>\<open>res['error_message']\<close> and a \<^verbatim>\<open>KeyError\<close> of the renderer are the exceptions
  the body itself can raise.
\<close>

datatype outcome = Continue | Break | Raised exn

definition receive_body :: "session \<Rightarrow> response \<Rightarrow> outcome \<times> session" where
  "receive_body s res =
     (case res_error_code res of
        Some code \<Rightarrow>
          (case res_error_message res of
             None \<Rightarrow> (Raised (KeyError (lit ''error_message'')), s)
           | Some msg \<Rightarrow>
               (Break, s\<lparr>current_transcript := lit ''Error: '' @ code @ lit '' - '' @ msg\<rparr>))
      | None \<Rightarrow>
          (case parse_response (final_tokens s) res of
             (final_tokens', non_final_tokens) \<Rightarrow>
               (let s1 = s\<lparr>final_tokens := final_tokens'\<rparr> in
                case session_render_tokens final_tokens' non_final_tokens of
                  Inl e \<Rightarrow> (Raised e, s1)
                | Inr transcript \<Rightarrow>
                    (if res_finished res then Break else Continue,
                     s1\<lparr>current_transcript := transcript\<rparr>))))"

text \<open>The two \<^verbatim>\<open>except\<close> clauses.\<close>

definition receive_except :: "session \<Rightarrow> exn \<Rightarrow> session" where
  "receive_except s e =
     (case e of
        ConnectionClosedOK \<Rightarrow> s
      | _ \<Rightarrow>
          if \<not> stop_event s
          then s\<lparr>current_transcript := current_transcript s @ lit ''\<newline>\<newline>Error: '' @ exn_str e\<rparr>
          else s)"

text \<open>
  What \<^verbatim>\<open>ws.recv()\<close> followed by \<^verbatim>\<open>json.loads\<close> gives: a response or an exception.
  The method runs against a list of such events, each paired with a flag that says
  whether another thread set the stop event while the call was blocked. At the end of
  the list the thread is still blocked in \<^verbatim>\<open>recv\<close>, and the session is as the consumer
  sees it then.
\<close>

datatype recv = Message response | Recv_raises exn

fun receive_messages :: "session \<Rightarrow> (bool \<times> recv) list \<Rightarrow> session" where
  "receive_messages s [] = s"
| "receive_messages s ((stop_set, r) # rest) =
     (if stop_event s then s
      else
        (let s1 = s\<lparr>stop_event := stop_set\<rparr> in
         case r of
           Recv_raises e \<Rightarrow> receive_except s1 e
         | Message res \<Rightarrow>
             (case receive_body s1 res of
                (Raised e, s2) \<Rightarrow> receive_except s2 e
              | (Break, s2) \<Rightarrow> s2
              | (Continue, s2) \<Rightarrow> receive_messages s2 rest)))"

section \<open>\<^verbatim>\<open>TranscriptionManager\<close> of gcloud\_stt\_realtime.py\<close>














section \<open>soniox\_multilingual\_stream.py\<close>

subsection \<open>\<^verbatim>\<open>map_languages\<close>\<close>

text \<open>
  \<^verbatim>\<open>re.findall(r"[\w']+|[.,!?;]", text)\<close>: scanning from the left, a longest run of word
  characters and apostrophes is one match, a single punctuation mark is one match, and
  any other character is skipped. Which code points the class \<^verbatim>\<open>\w\<close> holds is a table
  of the Unicode database, and so is \<^verbatim>\<open>str.lower\<close>; both are parameters (\<open>w\<close> and
  \<open>lower\<close>). \<open>word\<close> is the run read so far. The method
  \<^verbatim>\<open>TerminalMultilingualASR.map_languages\<close> of paper\_stt\_based.py is the same function,
  with the two dictionaries as fields of the object.
\<close>

definition punctuation :: "nat \<Rightarrow> bool" where
  "punctuation c = (c \<in> set (lit ''.,!?;''))"

definition word_char :: "(nat \<Rightarrow> bool) \<Rightarrow> nat \<Rightarrow> bool" where
  "word_char w c = (w c \<or> c = 39)"

fun findall_from :: "(nat \<Rightarrow> bool) \<Rightarrow> str \<Rightarrow> str \<Rightarrow> str list" where
  "findall_from w word [] = (if word = [] then [] else [word])"
| "findall_from w word (c # cs) =
     (if word_char w c then findall_from w (word @ [c]) cs
      else (if word = [] then [] else [word])
             @ (if punctuation c then [[c]] else [])
             @ findall_from w [] cs)"

definition findall :: "(nat \<Rightarrow> bool) \<Rightarrow> str \<Rightarrow> str list" where
  "findall w s = findall_from w [] s"

text \<open>\<^verbatim>\<open>re.match(r"[.,!?;]", word)\<close>: the word begins with a punctuation mark.\<close>

definition match_punctuation :: "str \<Rightarrow> bool" where
  "match_punctuation word = (case word of [] \<Rightarrow> False | c # _ \<Rightarrow> punctuation c)"

text \<open>\<^verbatim>\<open>sep.join(parts)\<close>.\<close>

fun join :: "str \<Rightarrow> str list \<Rightarrow> str" where
  "join sep [] = []"
| "join sep [x] = x"
| "join sep (x # y # ys) = x @ sep @ join sep (y # ys)"

fun map_for :: "(str \<Rightarrow> str) \<Rightarrow> (str \<rightharpoonup> str) \<Rightarrow> (str \<rightharpoonup> str) \<Rightarrow> str list \<Rightarrow> str list \<Rightarrow> str list" where
  "map_for lower hindi_dict gujarati_dict result [] = result"
| "map_for lower hindi_dict gujarati_dict result (word # rest) =
     (if match_punctuation word then map_for lower hindi_dict gujarati_dict (result @ [word]) rest
      else
        (let lower_word = lower word in
         case hindi_dict lower_word of
           Some v \<Rightarrow> map_for lower hindi_dict gujarati_dict (result @ [v]) rest
         | None \<Rightarrow>
             (case gujarati_dict lower_word of
                Some v \<Rightarrow> map_for lower hindi_dict gujarati_dict (result @ [v]) rest
              | None \<Rightarrow> map_for lower hindi_dict gujarati_dict (result @ [word]) rest)))"

definition map_languages ::
  "(nat \<Rightarrow> bool) \<Rightarrow> (str \<Rightarrow> str) \<Rightarrow> str \<Rightarrow> (str \<rightharpoonup> str) \<Rightarrow> (str \<rightharpoonup> str) \<Rightarrow> str" where
  "map_languages w lower s hindi_dict gujarati_dict =
     join (lit '' '') (map_for lower hindi_dict gujarati_dict [] (findall w s))"

subsection \<open>The receive loop of \<^verbatim>\<open>run_session\<close>\<close>

text \<open>\<^verbatim>\<open>"".join(t["text"] for t in tokens)\<close>: the first token without the key raises.\<close>

fun join_texts :: "token list \<Rightarrow> exn + str" where
  "join_texts [] = Inr []"
| "join_texts (t # ts) =
     (case tok_text t of
        None \<Rightarrow> Inl (KeyError (lit ''text''))
      | Some s \<Rightarrow> (case join_texts ts of Inl e \<Rightarrow> Inl e | Inr r \<Rightarrow> Inr (s @ r)))"

text \<open>
  One iteration of \<^verbatim>\<open>while True\<close> after \<^verbatim>\<open>json.loads\<close>: what it writes to the standard
  output, and how it ends.
\<close>

definition multilingual_body ::
  "(nat \<Rightarrow> bool) \<Rightarrow> (str \<Rightarrow> str) \<Rightarrow> (str \<rightharpoonup> str) \<Rightarrow> (str \<rightharpoonup> str) \<Rightarrow> response \<Rightarrow> outcome \<times> str list" where
  "multilingual_body w lower hindi_dict gujarati_dict res =
     (case res_error_code res of
        Some code \<Rightarrow>
          (case res_error_message res of
             None \<Rightarrow> (Raised (KeyError (lit ''error_message'')), [])
           | Some msg \<Rightarrow> (Break, [lit ''Error: '' @ code @ lit '' - '' @ msg @ lit ''\<newline>'']))
      | None \<Rightarrow>
          (let all_tokens = res_tokens res;
               final_toks = filter is_final all_tokens;
               non_final_toks = filter (\<lambda>t. \<not> is_final t) all_tokens
           in case join_texts final_toks of
                Inl e \<Rightarrow> (Raised e, [])
              | Inr final_text \<Rightarrow>
                  (case join_texts non_final_toks of
                     Inl e \<Rightarrow> (Raised e, [])
                   | Inr non_final_text \<Rightarrow>
                       (let mapped_final_text = map_languages w lower final_text hindi_dict gujarati_dict;
                            mapped_non_final_text =
                              map_languages w lower non_final_text hindi_dict gujarati_dict;
                            line = mapped_final_text @ mapped_non_final_text @ replicate 20 32 @ [13]
                        in if res_finished res
                           then (Break, [line, lit ''\<newline>Session finished by server.\<newline>''])
                           else (Continue, [line])))))"

text \<open>
  The loop with its \<^verbatim>\<open>except\<close> clauses, against the list of what \<^verbatim>\<open>ws.recv()\<close> gives.
  The result is everything written to the standard output; once the loop is left no
  later message is read.
\<close>

fun multilingual_loop ::
  "(nat \<Rightarrow> bool) \<Rightarrow> (str \<Rightarrow> str) \<Rightarrow> (str \<rightharpoonup> str) \<Rightarrow> (str \<rightharpoonup> str) \<Rightarrow> recv list \<Rightarrow> str list" where
  "multilingual_loop w lower hindi_dict gujarati_dict [] = []"
| "multilingual_loop w lower hindi_dict gujarati_dict (Recv_raises e # rest) =
     (case e of
        ConnectionClosedOK \<Rightarrow> [lit ''\<newline>Connection closed normally.\<newline>'']
      | _ \<Rightarrow> [lit ''Error: '' @ exn_str e @ lit ''\<newline>''])"
| "multilingual_loop w lower hindi_dict gujarati_dict (Message res # rest) =
     (case multilingual_body w lower hindi_dict gujarati_dict res of
        (Raised e, out) \<Rightarrow> out @ [lit ''Error: '' @ exn_str e @ lit ''\<newline>'']
      | (Break, out) \<Rightarrow> out
      | (Continue, out) \<Rightarrow> out @ multilingual_loop w lower hindi_dict gujarati_dict rest)"

section \<open>\<^verbatim>\<open>map_languages\<close> in the words of its description\<close>

text \<open>
  The text is split into tokens: a longest run of word characters and apostrophes is a
  word, one of the marks \<^verbatim>\<open>.,!?;\<close> is a punctuation token, every other character
  separates. A punctuation token stays; a word whose lower-case form is a key of the
  Hindi dictionary becomes that entry, else one whose lower-case form is a key of the
  Gujarati dictionary becomes that entry, else it stays. The results are joined by
  single spaces.
\<close>

function tokens_spec :: "(nat \<Rightarrow> bool) \<Rightarrow> str \<Rightarrow> str list" where
  "tokens_spec w [] = []"
| "tokens_spec w (c # cs) =
     (if word_char w c
      then takeWhile (word_char w) (c # cs) # tokens_spec w (dropWhile (word_char w) cs)
      else if punctuation c then [c] # tokens_spec w cs
      else tokens_spec w cs)"
  by pat_completeness auto
termination
  by (relation "measure (\<lambda>(w, s). length s)") (auto simp add: length_dropWhile_le less_Suc_eq_le)

definition is_punctuation_token :: "str \<Rightarrow> bool" where
  "is_punctuation_token tok = (case tok of [c] \<Rightarrow> punctuation c | _ \<Rightarrow> False)"

definition substitute :: "(str \<Rightarrow> str) \<Rightarrow> (str \<rightharpoonup> str) \<Rightarrow> (str \<rightharpoonup> str) \<Rightarrow> str \<Rightarrow> str" where
  "substitute lower hindi_dict gujarati_dict tok =
     (if is_punctuation_token tok then tok
      else
        (case hindi_dict (lower tok) of
           Some v \<Rightarrow> v
         | None \<Rightarrow> (case gujarati_dict (lower tok) of Some v \<Rightarrow> v | None \<Rightarrow> tok)))"

definition map_languages_spec ::
  "(nat \<Rightarrow> bool) \<Rightarrow> (str \<Rightarrow> str) \<Rightarrow> str \<Rightarrow> (str \<rightharpoonup> str) \<Rightarrow> (str \<rightharpoonup> str) \<Rightarrow> str" where
  "map_languages_spec w lower s hindi_dict gujarati_dict =
     join (lit '' '') (map (substitute lower hindi_dict gujarati_dict) (tokens_spec w s))"

section \<open>Inputs used in the statements\<close>

text \<open>
  \<open>batch ts\<close> is a response that carries the tokens \<open>ts\<close>, no error code and no
  \<^verbatim>\<open>finished\<close> flag; \<open>spoken t fin sp la\<close> is a token with the text \<open>t\<close>, the flag
  \<^verbatim>\<open>is_final\<close> set to \<open>fin\<close>, the speaker \<open>sp\<close>, the language \<open>la\<close> and no translation
  status.
\<close>

definition batch :: "token list \<Rightarrow> response" where
  "batch ts =
     \<lparr>res_error_code = None, res_error_message = None, res_tokens = ts, res_finished = False\<rparr>"

definition spoken :: "str \<Rightarrow> bool \<Rightarrow> str option \<Rightarrow> str option \<Rightarrow> token" where
  "spoken t fin sp la =
     \<lparr>tok_text = Some t, tok_is_final = Some fin, tok_speaker = sp, tok_language = la,
      tok_translation_status = None\<rparr>"





text \<open>
  The class \<^verbatim>\<open>\w\<close> and \<^verbatim>\<open>str.lower\<close> on ASCII text: the letters, the digits and the
  underscore; A to Z become a to z.
\<close>

definition ascii_word :: "nat \<Rightarrow> bool" where
  "ascii_word c = ((48 \<le> c \<and> c \<le> 57) \<or> (65 \<le> c \<and> c \<le> 90) \<or> c = 95 \<or> (97 \<le> c \<and> c \<le> 122))"

definition ascii_lower :: "str \<Rightarrow> str" where
  "ascii_lower s = map (\<lambda>c. if 65 \<le> c \<and> c \<le> 90 then c + 32 else c) s"

section \<open>Helper lemmas\<close>

lemma parse_for_eq:
  "parse_for f n ts =
     (f @ filter (\<lambda>t. has_text t \<and> is_final t) ts,
      n @ filter (\<lambda>t. has_text t \<and> \<not> is_final t) ts)"
  by (induction ts arbitrary: f n) auto

lemma session_render_for_as_render_for:
  "session_render_for ps sp la ts = map_sum id fst (render_for (ps, sp, la) ts)"
proof (induction ts arbitrary: ps sp la)
  case Nil
  show ?case by simp
next
  case (Cons t ts)
  show ?case
  proof (cases "tok_text t")
    case None
    then show ?thesis by (simp add: render_body_def)
  next
    case (Some tx)
    then show ?thesis
      by (cases "tok_speaker t"; cases "tok_language t"; cases sp; cases la)
         (auto simp add: Cons.IH render_body_def speaker_block_def language_block_def Let_def)
  qed
qed

lemma parse_response_eq:
  "parse_response f res =
     (f @ filter (\<lambda>t. has_text t \<and> is_final t) (res_tokens res),
      filter (\<lambda>t. has_text t \<and> \<not> is_final t) (res_tokens res))"
  by (simp add: parse_response_def parse_for_eq)

lemma session_render_for_total:
  "\<forall>t \<in> set ts. has_text t \<Longrightarrow> \<exists>parts. session_render_for ps sp la ts = Inr parts"
proof (induction ts arbitrary: ps sp la)
  case Nil
  show ?case by simp
next
  case (Cons t ts)
  then obtain tx where "tok_text t = Some tx"
    by (auto simp add: has_text_def split: option.splits)
  then show ?case using Cons by (simp add: Let_def)
qed

lemma session_render_tokens_total:
  "\<forall>t \<in> set (fs @ ns). has_text t \<Longrightarrow> \<exists>tr. session_render_tokens fs ns = Inr tr"
  using session_render_for_total [of "fs @ ns" "[]" None None]
  by (auto simp add: session_render_tokens_def)

lemma receive_body_interim:
  assumes "res_error_code res = None"
    and "\<forall>t \<in> set (final_tokens s). has_text t"
  shows "\<exists>tr. session_render_tokens
             (final_tokens s @ filter (\<lambda>t. has_text t \<and> is_final t) (res_tokens res))
             (filter (\<lambda>t. has_text t \<and> \<not> is_final t) (res_tokens res)) = Inr tr
          \<and> receive_body s res =
              (if res_finished res then Break else Continue,
               s\<lparr>final_tokens := final_tokens s @ filter (\<lambda>t. has_text t \<and> is_final t) (res_tokens res),
                 current_transcript := tr\<rparr>)"
proof -
  let ?f = "final_tokens s @ filter (\<lambda>t. has_text t \<and> is_final t) (res_tokens res)"
  let ?n = "filter (\<lambda>t. has_text t \<and> \<not> is_final t) (res_tokens res)"
  have "\<forall>t \<in> set (?f @ ?n). has_text t" using assms(2) by auto
  then obtain tr where tr: "session_render_tokens ?f ?n = Inr tr"
    using session_render_tokens_total by blast
  show ?thesis
    using tr assms(1) by (simp add: receive_body_def parse_response_eq)
qed

lemma receive_messages_step:
  assumes "\<not> stop_event s"
  shows "receive_messages s ((False, Message res) # rest) =
           (case receive_body s res of
              (Raised e, s2) \<Rightarrow> receive_except s2 e
            | (Break, s2) \<Rightarrow> s2
            | (Continue, s2) \<Rightarrow> receive_messages s2 rest)"
proof -
  have same: "s\<lparr>stop_event := False\<rparr> = s" using assms by simp
  show ?thesis using assms by (simp add: same)
qed

lemma receive_messages_batches:
  assumes "\<not> stop_event s" and "\<forall>t \<in> set (final_tokens s). has_text t"
    and "\<forall>r \<in> set rs. res_error_code r = None \<and> \<not> res_finished r"
    and "res_error_code res = None"
  shows "\<exists>tr.
      session_render_tokens
        (final_tokens s
           @ concat (map (\<lambda>r. filter (\<lambda>t. has_text t \<and> is_final t) (res_tokens r)) (rs @ [res])))
        (filter (\<lambda>t. has_text t \<and> \<not> is_final t) (res_tokens res)) = Inr tr
      \<and> receive_messages s (map (\<lambda>r. (False, Message r)) (rs @ [res])) =
          s\<lparr>final_tokens :=
               final_tokens s
                 @ concat (map (\<lambda>r. filter (\<lambda>t. has_text t \<and> is_final t) (res_tokens r)) (rs @ [res])),
             current_transcript := tr\<rparr>"
  using assms
proof (induction rs arbitrary: s)
  case Nil
  obtain tr where tr: "session_render_tokens
             (final_tokens s @ filter (\<lambda>t. has_text t \<and> is_final t) (res_tokens res))
             (filter (\<lambda>t. has_text t \<and> \<not> is_final t) (res_tokens res)) = Inr tr"
    and b: "receive_body s res =
              (if res_finished res then Break else Continue,
               s\<lparr>final_tokens := final_tokens s @ filter (\<lambda>t. has_text t \<and> is_final t) (res_tokens res),
                 current_transcript := tr\<rparr>)"
    using receive_body_interim [OF Nil.prems(4) Nil.prems(2)] by blast
  have "receive_messages s [(False, Message res)] =
          s\<lparr>final_tokens := final_tokens s @ filter (\<lambda>t. has_text t \<and> is_final t) (res_tokens res),
            current_transcript := tr\<rparr>"
    using receive_messages_step [OF Nil.prems(1), of res "[]"] b by simp
  then show ?case using tr by simp
next
  case (Cons r rs)
  have r: "res_error_code r = None" "\<not> res_finished r" using Cons.prems(3) by simp_all
  let ?F = "filter (\<lambda>t. has_text t \<and> is_final t) (res_tokens r)"
  obtain tr1 where b: "receive_body s r =
              (Continue, s\<lparr>final_tokens := final_tokens s @ ?F, current_transcript := tr1\<rparr>)"
    using receive_body_interim [OF r(1) Cons.prems(2)] r(2) by auto
  let ?s1 = "s\<lparr>final_tokens := final_tokens s @ ?F, current_transcript := tr1\<rparr>"
  have 1: "\<not> stop_event ?s1" using Cons.prems(1) by simp
  have 2: "\<forall>t \<in> set (final_tokens ?s1). has_text t" using Cons.prems(2) by auto
  have 3: "\<forall>r \<in> set rs. res_error_code r = None \<and> \<not> res_finished r" using Cons.prems(3) by simp
  obtain tr where tr: "session_render_tokens
        (final_tokens ?s1
           @ concat (map (\<lambda>r. filter (\<lambda>t. has_text t \<and> is_final t) (res_tokens r)) (rs @ [res])))
        (filter (\<lambda>t. has_text t \<and> \<not> is_final t) (res_tokens res)) = Inr tr"
    and m: "receive_messages ?s1 (map (\<lambda>r. (False, Message r)) (rs @ [res])) =
          ?s1\<lparr>final_tokens :=
               final_tokens ?s1
                 @ concat (map (\<lambda>r. filter (\<lambda>t. has_text t \<and> is_final t) (res_tokens r)) (rs @ [res])),
             current_transcript := tr\<rparr>"
    using Cons.IH [OF 1 2 3 Cons.prems(4)] by blast
  have "receive_messages s (map (\<lambda>r. (False, Message r)) ((r # rs) @ [res])) =
          receive_messages ?s1 (map (\<lambda>r. (False, Message r)) (rs @ [res]))"
    using receive_messages_step [OF Cons.prems(1), of r] b by simp
  then show ?case using tr m by simp
qed

lemma receive_body_final_tokens:
  "prefix (final_tokens s) (final_tokens (snd (receive_body s res)))"
  by (auto simp add: receive_body_def parse_response_eq Let_def split: option.splits sum.splits)

lemma receive_except_final_tokens:
  "final_tokens (receive_except s e) = final_tokens s"
  by (simp add: receive_except_def split: exn.splits)

lemma receive_messages_final_tokens:
  "prefix (final_tokens s) (final_tokens (receive_messages s evs))"
proof (induction evs arbitrary: s)
  case Nil
  show ?case by simp
next
  case (Cons ev evs)
  obtain stop_set r where ev: "ev = (stop_set, r)" by (cases ev)
  show ?case
  proof (cases "stop_event s")
    case True
    then show ?thesis by (simp add: ev)
  next
    case False
    let ?s1 = "s\<lparr>stop_event := stop_set\<rparr>"
    show ?thesis
    proof (cases r)
      case (Recv_raises e)
      then show ?thesis using False by (simp add: ev receive_except_final_tokens)
    next
      case (Message res)
      obtain out s2 where b: "receive_body ?s1 res = (out, s2)" by (cases "receive_body ?s1 res")
      have p: "prefix (final_tokens s) (final_tokens s2)"
        using receive_body_final_tokens [of ?s1 res] b by simp
      show ?thesis
      proof (cases out)
        case Continue
        then show ?thesis
          using False Message b p Cons.IH [of s2]
          by (auto simp add: ev intro: prefix_order.trans)
      next
        case Break
        then show ?thesis using False Message b p by (simp add: ev)
      next
        case (Raised e)
        then show ?thesis
          using False Message b p by (simp add: ev receive_except_final_tokens)
      qed
    qed
  qed
qed

lemma receive_messages_append:
  "receive_messages s (evs @ later) = receive_messages s evs \<or>
   receive_messages s (evs @ later) = receive_messages (receive_messages s evs) later"
proof (induction evs arbitrary: s)
  case Nil
  show ?case by simp
next
  case (Cons ev evs)
  obtain stop_set r where ev: "ev = (stop_set, r)" by (cases ev)
  show ?case
  proof (cases "stop_event s")
    case True
    then show ?thesis by (simp add: ev)
  next
    case False
    let ?s1 = "s\<lparr>stop_event := stop_set\<rparr>"
    show ?thesis
    proof (cases r)
      case (Recv_raises e)
      then show ?thesis using False by (simp add: ev)
    next
      case (Message res)
      obtain out s2 where b: "receive_body ?s1 res = (out, s2)" by (cases "receive_body ?s1 res")
      show ?thesis
      proof (cases out)
        case Continue
        then show ?thesis
          using False Message b Cons.IH [of s2] by (simp add: ev)
      next
        case Break
        then show ?thesis using False Message b by (simp add: ev)
      next
        case (Raised e)
        then show ?thesis using False Message b by (simp add: ev)
      qed
    qed
  qed
qed








lemma token_without_text_skipped:
  "tok_text bad = None \<Longrightarrow> parse_for f n (xs @ bad # ys) = parse_for f n (xs @ ys)"
  by (simp add: parse_for_eq has_text_def)

lemma tokens_spec_run:
  "tokens_spec w s =
     (if takeWhile (word_char w) s = [] then [] else [takeWhile (word_char w) s])
       @ tokens_spec w (dropWhile (word_char w) s)"
  by (cases s) simp_all

lemma findall_from_run:
  "findall_from w word s =
     (if word @ takeWhile (word_char w) s = [] then [] else [word @ takeWhile (word_char w) s])
       @ tokens_spec w (dropWhile (word_char w) s)"
proof (induction s arbitrary: word)
  case Nil
  show ?case by simp
next
  case (Cons c cs)
  show ?case
  proof (cases "word_char w c")
    case True
    then show ?thesis using Cons.IH [of "word @ [c]"] by simp
  next
    case False
    have "findall_from w [] cs = tokens_spec w cs"
      using Cons.IH [of "[]"] tokens_spec_run [of w cs] by simp
    then show ?thesis using False by simp
  qed
qed

lemma findall_tokens_spec: "findall w s = tokens_spec w s"
  using findall_from_run [of w "[]" s] tokens_spec_run [of w s] by (simp add: findall_def)

lemma map_for_eq:
  "map_for lower h g result words =
     result @ map (\<lambda>word. if match_punctuation word then word
                           else (case h (lower word) of Some v \<Rightarrow> v
                                 | None \<Rightarrow> (case g (lower word) of Some v \<Rightarrow> v | None \<Rightarrow> word))) words"
  by (induction words arbitrary: result) (auto simp add: Let_def split: option.splits)

lemma tokens_spec_shape:
  "tok \<in> set (tokens_spec w s) \<Longrightarrow>
     (tok \<noteq> [] \<and> (\<forall>c \<in> set tok. word_char w c)) \<or> (\<exists>c. tok = [c] \<and> punctuation c \<and> \<not> word_char w c)"
proof (induction w s rule: tokens_spec.induct)
  case (1 w)
  then show ?case by simp
next
  case (2 w c cs)
  show ?case
  proof (cases "word_char w c")
    case True
    then show ?thesis using 2 by (auto dest: set_takeWhileD)
  next
    case False
    then show ?thesis using 2 by (auto split: if_splits)
  qed
qed

lemma punctuation_not_apostrophe: "\<not> punctuation 39"
  by (simp add: punctuation_def)

lemma match_is_punctuation_token:
  assumes "\<forall>c. w c \<longrightarrow> \<not> punctuation c" and "tok \<in> set (tokens_spec w s)"
  shows "match_punctuation tok = is_punctuation_token tok"
proof -
  have np: "word_char w c \<Longrightarrow> \<not> punctuation c" for c
    using assms(1) punctuation_not_apostrophe by (auto simp add: word_char_def)
  from tokens_spec_shape [OF assms(2)] show ?thesis
  proof
    assume a: "tok \<noteq> [] \<and> (\<forall>c \<in> set tok. word_char w c)"
    then obtain c cs where tok: "tok = c # cs" by (cases tok) auto
    then have "word_char w c" using a by simp
    then have "\<not> punctuation c" by (rule np)
    then show ?thesis by (simp add: tok match_punctuation_def is_punctuation_token_def split: list.splits)
  next
    assume "\<exists>c. tok = [c] \<and> punctuation c \<and> \<not> word_char w c"
    then show ?thesis by (auto simp add: match_punctuation_def is_punctuation_token_def)
  qed
qed

section \<open>The two renderers agree\<close>

text \<open>
  Claim C9. On every pair of token lists the module-level \<^verbatim>\<open>render_tokens\<close> of
  soniox\_realtime.py and the method \<^verbatim>\<open>TranscriptionSession.render_tokens\<close> of
  soniox\_ui.py either both raise the same exception (a token without the key
  \<^verbatim>\<open>text\<close>) or both return, and then the module-level result is the method's result
  followed by the terminator line \<^verbatim>\<open>\n===============================\<close>.
\<close>

theorem render_tokens_equal_up_to_terminator:
  "render_tokens finals non_finals =
     map_sum id (\<lambda>text. text @ lit ''\<newline>==============================='')
       (session_render_tokens finals non_finals)"
proof -
  let ?ts = "finals @ non_finals"
  show ?thesis
  proof (cases "render_for ([], None, None) ?ts")
    case (Inl e)
    then show ?thesis
      by (simp add: render_tokens_def session_render_tokens_def
          session_render_for_as_render_for)
  next
    case (Inr st)
    then show ?thesis
      by (cases st)
         (simp add: render_tokens_def session_render_tokens_def
            session_render_for_as_render_for)
  qed
qed

section \<open>The interim tokens are those of the last response\<close>

text \<open>
  Claim C1, as the code has it. Take a session that has not been told to stop and whose
  final log holds tokens with text, and any sequence of responses without error code,
  all but possibly the last without the \<^verbatim>\<open>finished\<close> flag. After the loop has processed
  the sequence, the final log is the old one followed by the final tokens with text of
  all the responses, and the transcript is the rendering of that final log followed by
  the tokens of the last response that have a non-empty text and are not final, in
  their order: no interim token of an earlier response is rendered, and a token whose
  text is missing or empty is left out. The list \<^verbatim>\<open>non_final_tokens\<close> built by the token
  loop is that list of the response, whatever the final log is. In particular, after a
  response with the interim tokens \<open>a\<close>, \<open>b\<close> and one with the interim token \<open>c\<close> the
  transcript is the rendering of the final log followed by \<open>c\<close> alone.
\<close>

theorem interim_buffer_replaced:
  assumes "\<not> stop_event s" and "\<forall>t \<in> set (final_tokens s). has_text t"
    and "\<forall>r \<in> set rs. res_error_code r = None \<and> \<not> res_finished r"
    and "res_error_code res = None"
  shows "(\<exists>tr.
      session_render_tokens
        (final_tokens s
           @ concat (map (\<lambda>r. filter (\<lambda>t. has_text t \<and> is_final t) (res_tokens r)) (rs @ [res])))
        (filter (\<lambda>t. has_text t \<and> \<not> is_final t) (res_tokens res)) = Inr tr
      \<and> receive_messages s (map (\<lambda>r. (False, Message r)) (rs @ [res])) =
          s\<lparr>final_tokens :=
               final_tokens s
                 @ concat (map (\<lambda>r. filter (\<lambda>t. has_text t \<and> is_final t) (res_tokens r)) (rs @ [res])),
             current_transcript := tr\<rparr>)
       \<and> snd (parse_response finals any_res) =
           filter (\<lambda>t. has_text t \<and> \<not> is_final t) (res_tokens any_res)
       \<and> (has_text a \<and> \<not> is_final a \<and> has_text b \<and> \<not> is_final b \<and> has_text c \<and> \<not> is_final c \<longrightarrow>
           session_render_tokens (final_tokens s) [c] =
             Inr (current_transcript
                   (receive_messages s
                      [(False, Message (batch [a, b])), (False, Message (batch [c]))]))
           \<and> final_tokens
               (receive_messages s [(False, Message (batch [a, b])), (False, Message (batch [c]))])
               = final_tokens s)"
proof -
  have 1: "\<exists>tr.
      session_render_tokens
        (final_tokens s
           @ concat (map (\<lambda>r. filter (\<lambda>t. has_text t \<and> is_final t) (res_tokens r)) (rs @ [res])))
        (filter (\<lambda>t. has_text t \<and> \<not> is_final t) (res_tokens res)) = Inr tr
      \<and> receive_messages s (map (\<lambda>r. (False, Message r)) (rs @ [res])) =
          s\<lparr>final_tokens :=
               final_tokens s
                 @ concat (map (\<lambda>r. filter (\<lambda>t. has_text t \<and> is_final t) (res_tokens r)) (rs @ [res])),
             current_transcript := tr\<rparr>"
    using receive_messages_batches [OF assms] .
  have 2: "snd (parse_response finals any_res) =
           filter (\<lambda>t. has_text t \<and> \<not> is_final t) (res_tokens any_res)"
    by (simp add: parse_response_eq)
  have 3: "session_render_tokens (final_tokens s) [c] =
             Inr (current_transcript
                   (receive_messages s
                      [(False, Message (batch [a, b])), (False, Message (batch [c]))]))
           \<and> final_tokens
               (receive_messages s [(False, Message (batch [a, b])), (False, Message (batch [c]))])
               = final_tokens s"
    if abc: "has_text a \<and> \<not> is_final a \<and> has_text b \<and> \<not> is_final b \<and> has_text c \<and> \<not> is_final c"
  proof -
    have r: "\<forall>r \<in> set [batch [a, b]]. res_error_code r = None \<and> \<not> res_finished r"
      by (simp add: batch_def)
    have e: "res_error_code (batch [c]) = None" by (simp add: batch_def)
    obtain tr where a: "session_render_tokens (final_tokens s) [c] = Inr tr"
      and b: "receive_messages s [(False, Message (batch [a, b])), (False, Message (batch [c]))]
                = s\<lparr>final_tokens := final_tokens s, current_transcript := tr\<rparr>"
      using receive_messages_batches [OF assms(1) assms(2) r e] abc
      by (auto simp add: batch_def simp del: receive_messages.simps)
    show ?thesis unfolding a b by simp
  qed
  show ?thesis using 1 2 3 by blast
qed

theorem interim_buffer_replaced_witness:
  "current_transcript
     (receive_messages (snd (start new_session Connected))
        [(False, Message (batch [spoken (lit ''How'') False None None,
                                 spoken (lit '' are'') False None None])),
         (False, Message (batch [spoken (lit ''Hello'') False None None]))])
   = lit ''Hello''"
proof -
  let ?s = "snd (start new_session Connected)"
  let ?b1 = "batch [spoken (lit ''How'') False None None, spoken (lit '' are'') False None None]"
  let ?b2 = "batch [spoken (lit ''Hello'') False None None]"
  have 1: "\<not> stop_event ?s" by (simp add: start_def new_session_def)
  have 2: "\<forall>t \<in> set (final_tokens ?s). has_text t" by (simp add: start_def new_session_def)
  have 3: "\<forall>r \<in> set [?b1]. res_error_code r = None \<and> \<not> res_finished r" by (simp add: batch_def)
  have 4: "res_error_code ?b2 = None" by (simp add: batch_def)
  have 5: "final_tokens ?s
             @ concat (map (\<lambda>r. filter (\<lambda>t. has_text t \<and> is_final t) (res_tokens r)) ([?b1] @ [?b2]))
           = []"
    by (simp add: start_def new_session_def batch_def spoken_def has_text_def is_final_def)
  have 6: "filter (\<lambda>t. has_text t \<and> \<not> is_final t) (res_tokens ?b2)
           = [spoken (lit ''Hello'') False None None]"
    by (simp add: batch_def spoken_def has_text_def is_final_def)
  have 7: "session_render_tokens [] [spoken (lit ''Hello'') False None None] = Inr (lit ''Hello'')"
    by (simp add: session_render_tokens_def spoken_def)
  obtain tr where a: "session_render_tokens
        (final_tokens ?s
           @ concat (map (\<lambda>r. filter (\<lambda>t. has_text t \<and> is_final t) (res_tokens r)) ([?b1] @ [?b2])))
        (filter (\<lambda>t. has_text t \<and> \<not> is_final t) (res_tokens ?b2)) = Inr tr"
    and b: "receive_messages ?s (map (\<lambda>r. (False, Message r)) ([?b1] @ [?b2])) =
          ?s\<lparr>final_tokens :=
               final_tokens ?s
                 @ concat (map (\<lambda>r. filter (\<lambda>t. has_text t \<and> is_final t) (res_tokens r)) ([?b1] @ [?b2])),
             current_transcript := tr\<rparr>"
    using interim_buffer_replaced [OF 1 2 3 4] by blast
  have "tr = lit ''Hello''" using a unfolding 5 6 7 by simp
  moreover have "current_transcript (receive_messages ?s [(False, Message ?b1), (False, Message ?b2)]) = tr"
    using b by simp
  ultimately show ?thesis by simp
qed

text \<open>
  The claim as it is worded fails for a token that is not final and has the empty
  text: it is a non-final token of the response, yet it is not in the list, and the
  speaker label it would render is not in the transcript.
\<close>

theorem empty_text_token_not_buffered:
  "\<not> is_final (spoken [] False (Some (lit ''2'')) None)
   \<and> snd (parse_response [] (batch [spoken [] False (Some (lit ''2'')) None])) = []
   \<and> session_render_tokens [] [spoken [] False (Some (lit ''2'')) None] = Inr (lit ''Speaker 2:'')
   \<and> current_transcript
       (receive_messages (snd (start new_session Connected))
          [(False, Message (batch [spoken [] False (Some (lit ''2'')) None]))]) = []"
  by (simp add: is_final_def has_text_def spoken_def batch_def parse_response_def
      session_render_tokens_def start_def new_session_def receive_body_def)

section \<open>The final log only grows\<close>

text \<open>
  Claim C2. Whatever the session receives, and however the list of received events is
  cut in two, the final log after the first part is a prefix of the final log after
  both parts: its length does not decrease and its elements stay where and what they
  were. The same holds for one run of the token loop, which soniox\_realtime.py shares.
\<close>

theorem final_log_append_only:
  "prefix (final_tokens (receive_messages s evs)) (final_tokens (receive_messages s (evs @ later)))
   \<and> length (final_tokens (receive_messages s evs))
       \<le> length (final_tokens (receive_messages s (evs @ later)))
   \<and> take (length (final_tokens (receive_messages s evs)))
        (final_tokens (receive_messages s (evs @ later)))
       = final_tokens (receive_messages s evs)
   \<and> prefix finals (fst (parse_response finals res))"
proof -
  let ?a = "receive_messages s evs" and ?b = "receive_messages s (evs @ later)"
  have p: "prefix (final_tokens ?a) (final_tokens ?b)"
    using receive_messages_append [of s evs later] receive_messages_final_tokens [of ?a later]
    by auto
  then obtain zs where "final_tokens ?b = final_tokens ?a @ zs" by (auto simp: prefix_def)
  then show ?thesis using p by (simp add: parse_response_eq)
qed

section \<open>Stopping a session that is not running\<close>

text \<open>
  Claim C6. \<^verbatim>\<open>stop\<close> on a session that is not running returns the string
  \<^verbatim>\<open>No active session\<close> and leaves the session as it is, so it makes no call on the
  websocket or the threads. That is the case for a new session, on which \<^verbatim>\<open>start\<close> was
  never called, and for the session a first \<^verbatim>\<open>stop\<close> has returned, whatever the
  session was before.
\<close>

theorem stop_when_not_running:
  "(\<not> is_running s \<longrightarrow> stop s = (lit ''No active session'', s))
   \<and> stop new_session = (lit ''No active session'', new_session)
   \<and> stop (snd (stop s)) = (lit ''No active session'', snd (stop s))
   \<and> calls (snd (stop (snd (stop s)))) = calls (snd (stop s))"
proof -
  have a: "\<not> is_running s \<Longrightarrow> stop s = (lit ''No active session'', s)" for s
    by (simp add: stop_def)
  have b: "\<not> is_running (snd (stop s))"
    by (simp add: stop_def Let_def split: option.splits)
  have c: "\<not> is_running new_session" by (simp add: new_session_def)
  show ?thesis using a [OF b] a [OF c] a by simp
qed

theorem stop_when_not_running_witness:
  "\<not> is_running new_session
   \<and> stop new_session = (lit ''No active session'', new_session)
   \<and> calls (snd (stop (snd (start new_session Connected)))) =
       [Connect, Ws_send_config, Event_clear, Thread_start Thread_stream_audio_from_mic,
        Thread_start Thread_receive_messages, Event_set, Thread_join Thread_stream_audio_from_mic,
        Thread_join Thread_receive_messages, Ws_close]
   \<and> calls (snd (stop (snd (stop (snd (start new_session Connected)))))) =
       calls (snd (stop (snd (start new_session Connected))))"
  using stop_when_not_running [of new_session]
    stop_when_not_running [of "snd (start new_session Connected)"]
  by (simp add: new_session_def start_def stop_def)

section \<open>Errors of the receiving task\<close>




section \<open>Language tags\<close>



section \<open>Speaker labels\<close>



section \<open>A token without text\<close>

text \<open>
  Claim C5 at the input on which soniox\_multilingual\_stream.py breaks it. The first
  token of the response has no key \<^verbatim>\<open>text\<close>. The loop of \<^verbatim>\<open>run_session\<close> writes the
  \<^verbatim>\<open>KeyError\<close> as an error line and is left: nothing is written for the second token of
  the response, and no later message \<open>rest\<close> is read. (The loops of soniox\_ui.py and
  soniox\_realtime.py skip such a token, see \<open>token_without_text_skipped\<close>.)
\<close>

theorem multilingual_malformed_token_halts:
  "multilingual_loop w lower hindi_dict gujarati_dict
     (Message (batch
        [\<lparr>tok_text = None, tok_is_final = Some True, tok_speaker = None, tok_language = None,
          tok_translation_status = None\<rparr>,
         spoken (lit ''hello'') True None None]) # rest)
   = [lit ''Error: '' @ lit [CHR 0x27] @ lit ''text'' @ lit [CHR 0x27] @ lit ''\<newline>'']"
  by (simp add: batch_def spoken_def multilingual_body_def is_final_def)

section \<open>\<^verbatim>\<open>map_languages\<close>\<close>

text \<open>
  Claim C10. Provided no punctuation mark is a word character (as in the class
  \<^verbatim>\<open>\w\<close>), \<^verbatim>\<open>map_languages\<close> computes what its description says, for every text, both
  dictionaries and every lower-casing. With no dictionary entry at all the result is the
  tokens joined by single spaces, so the spacing of the text is lost: a comma next to a
  word and a double space both come out as one space on each side.
\<close>

theorem map_languages_refines_spec:
  assumes "\<forall>c. w c \<longrightarrow> \<not> punctuation c"
  shows "map_languages w lower s hindi_dict gujarati_dict =
           map_languages_spec w lower s hindi_dict gujarati_dict
       \<and> map_languages w lower s Map.empty Map.empty = join (lit '' '') (tokens_spec w s)
       \<and> map_languages ascii_word ascii_lower (lit ''wait,  what?'') Map.empty Map.empty
           = lit ''wait , what ?''"
proof -
  have sub: "map (\<lambda>word. if match_punctuation word then word
                           else (case h (lower word) of Some v \<Rightarrow> v
                                 | None \<Rightarrow> (case g (lower word) of Some v \<Rightarrow> v | None \<Rightarrow> word)))
               (tokens_spec w s)
             = map (substitute lower h g) (tokens_spec w s)" for h g
    using match_is_punctuation_token [OF assms] by (auto simp add: substitute_def)
  have 1: "map_languages w lower s hindi_dict gujarati_dict =
           map_languages_spec w lower s hindi_dict gujarati_dict"
    by (simp add: map_languages_def map_languages_spec_def findall_tokens_spec map_for_eq sub)
  have 2: "map_languages w lower s Map.empty Map.empty = join (lit '' '') (tokens_spec w s)"
    by (simp add: map_languages_def findall_tokens_spec map_for_eq cong: if_cong)
  have 3: "map_languages ascii_word ascii_lower (lit ''wait,  what?'') Map.empty Map.empty
           = lit ''wait , what ?''"
    by (simp add: map_languages_def findall_def word_char_def punctuation_def ascii_word_def
        match_punctuation_def)
  show ?thesis using 1 2 3 by blast
qed

theorem map_languages_refines_spec_witness:
  "map_languages ascii_word ascii_lower (lit ''Aaj kem, ok'')
     [lit ''aaj'' \<mapsto> [2310, 2332]] [lit ''kem'' \<mapsto> [2709, 2759, 2734]]
   = [2310, 2332] @ lit '' '' @ [2709, 2759, 2734] @ lit '' , ok''"
proof -
  have h: "\<forall>c. ascii_word c \<longrightarrow> \<not> punctuation c"
    by (auto simp add: ascii_word_def punctuation_def)
  have "map_languages ascii_word ascii_lower (lit ''Aaj kem, ok'')
          [lit ''aaj'' \<mapsto> [2310, 2332]] [lit ''kem'' \<mapsto> [2709, 2759, 2734]]
        = map_languages_spec ascii_word ascii_lower (lit ''Aaj kem, ok'')
          [lit ''aaj'' \<mapsto> [2310, 2332]] [lit ''kem'' \<mapsto> [2709, 2759, 2734]]"
    using map_languages_refines_spec [OF h] by (rule conjunct1)
  also have "\<dots> = [2310, 2332] @ lit '' '' @ [2709, 2759, 2734] @ lit '' , ok''"
    by (simp add: map_languages_spec_def substitute_def is_punctuation_token_def ascii_lower_def
        word_char_def ascii_word_def punctuation_def)
  finally show ?thesis .
qed

end
